theory Spec2Isabelle
  imports Complex_Main
begin

section \<open>HydrusThreading: thread registry, workers, jobs and the job scheduler\<close>

text \<open>
  A shallow embedding of \<^verbatim>\<open>hydrus/core/HydrusThreading.py\<close>. Threads and jobs are
  Python objects compared by identity; they are modelled by natural numbers naming the
  object. Python floats holding timestamps are modelled by \<open>real\<close>, integer timestamps
  by \<open>int\<close>. Everything that a function reads from outside the module (the clock,
  whether a thread is alive, the controller's answers, the behaviour of a supplied
  callable) is a parameter of the model.
\<close>

subsection \<open>Exceptions\<close>

text \<open>
  The handlers of the module distinguish \<^verbatim>\<open>HydrusExceptions.ShutdownException\<close> from
  every other instance of \<^verbatim>\<open>Exception\<close>; \<^verbatim>\<open>queue.Empty\<close> is one of the latter with a
  handler of its own.
\<close>

datatype exn = ShutdownException | QueueEmpty | OtherException string

subsection \<open>Time\<close>

text \<open>
  Modelled from the spec: \<^verbatim>\<open>HydrusData.TimeHasPassed\<close> is not among the sources. The
  spec's glossary makes a timestamp passed at or after the time it names; the first
  argument is the clock reading \<^verbatim>\<open>GetNow()\<close> taken by the call.
\<close>

definition TimeHasPassed :: "int \<Rightarrow> int \<Rightarrow> bool" where
  "TimeHasPassed now timestamp = (timestamp \<le> now)"

text \<open>
  Modelled from the spec: \<^verbatim>\<open>HydrusData.TimeHasPassedFloat\<close> is not among the sources.
  It is \<^verbatim>\<open>TimeHasPassed\<close> on float timestamps, with the clock reading \<^verbatim>\<open>GetNowFloat()\<close>.
\<close>

definition TimeHasPassedFloat :: "real \<Rightarrow> real \<Rightarrow> bool" where
  "TimeHasPassedFloat now timestamp = (timestamp \<le> now)"

subsection \<open>The thread registry\<close>

type_synonym thread = nat

text \<open>A thread's info is the dict \<^verbatim>\<open>{ 'shutting_down' : bool }\<close>.\<close>

record thread_info =
  shutting_down :: bool

text \<open>The module globals \<^verbatim>\<open>NEXT_THREAD_CLEAROUT\<close> and \<^verbatim>\<open>THREADS_TO_THREAD_INFO\<close>.\<close>

record registry =
  NEXT_THREAD_CLEAROUT :: int
  THREADS_TO_THREAD_INFO :: "thread \<rightharpoonup> thread_info"


text \<open>
  What a registry call observes of the world: the clock (\<^verbatim>\<open>HydrusData.GetNow()\<close>),
  which threads are alive (\<^verbatim>\<open>thread.is_alive()\<close>) and the calling thread
  (\<^verbatim>\<open>threading.current_thread()\<close>).
\<close>

record world =
  GetNow :: int
  is_alive :: "thread \<Rightarrow> bool"
  current_thread :: thread

text \<open>\<^verbatim>\<open>ClearOutDeadThreads\<close>: every key whose thread is not alive is deleted.\<close>

definition ClearOutDeadThreads :: "world \<Rightarrow> registry \<Rightarrow> registry" where
  "ClearOutDeadThreads w r =
     r \<lparr> THREADS_TO_THREAD_INFO :=
           (\<lambda>thread. if is_alive w thread then THREADS_TO_THREAD_INFO r thread else None) \<rparr>"

text \<open>
  \<^verbatim>\<open>GetThreadInfo( thread = None )\<close>: the sweep when it is due, the default of the
  argument, the lazy creation of the entry, and the entry returned. The dict returned is
  the one stored in the registry, so the new registry is returned with it.
\<close>

definition GetThreadInfo :: "world \<Rightarrow> thread option \<Rightarrow> registry \<Rightarrow> thread_info \<times> registry" where
  "GetThreadInfo w thread_arg r =
     (let r1 = (if TimeHasPassed (GetNow w) (NEXT_THREAD_CLEAROUT r)
                then (ClearOutDeadThreads w r) \<lparr> NEXT_THREAD_CLEAROUT := GetNow w + 600 \<rparr>
                else r);
          thread = (case thread_arg of None \<Rightarrow> current_thread w | Some t \<Rightarrow> t);
          r2 = (case THREADS_TO_THREAD_INFO r1 thread of
                  None \<Rightarrow> r1 \<lparr> THREADS_TO_THREAD_INFO :=
                                 (THREADS_TO_THREAD_INFO r1)(thread \<mapsto> \<lparr> shutting_down = False \<rparr>) \<rparr>
                | Some _ \<Rightarrow> r1)
      in (case THREADS_TO_THREAD_INFO r2 thread of
            Some thread_info \<Rightarrow> (thread_info, r2)
          | None \<Rightarrow> (\<lparr> shutting_down = False \<rparr>, r2)))"


text \<open>
  The globals \<^verbatim>\<open>IsThreadShuttingDown\<close> reads: \<^verbatim>\<open>HG.controller.DoingFastExit()\<close>,
  \<^verbatim>\<open>HG.view_shutdown\<close>, \<^verbatim>\<open>HG.model_shutdown\<close>, and whether the calling thread is an
  instance of \<^verbatim>\<open>DAEMON\<close>.
\<close>

record globals =
  DoingFastExit :: bool
  view_shutdown :: bool
  model_shutdown :: bool
  is_DAEMON :: "thread \<Rightarrow> bool"

definition IsThreadShuttingDown :: "globals \<Rightarrow> world \<Rightarrow> registry \<Rightarrow> bool \<times> registry" where
  "IsThreadShuttingDown g w r =
     (if DoingFastExit g then (True, r)
      else if is_DAEMON g (current_thread w) \<and> view_shutdown g then (True, r)
      else if \<not> is_DAEMON g (current_thread w) \<and> model_shutdown g then (True, r)
      else (case GetThreadInfo w None r of
              (thread_info, r') \<Rightarrow> (shutting_down thread_info, r')))"

text \<open>\<^verbatim>\<open>CheckIfThreadShuttingDown\<close> raises \<^verbatim>\<open>ShutdownException\<close> when it is.\<close>

definition CheckIfThreadShuttingDown :: "globals \<Rightarrow> world \<Rightarrow> registry \<Rightarrow> (exn + unit) \<times> registry" where
  "CheckIfThreadShuttingDown g w r =
     (case IsThreadShuttingDown g w r of
        (True, r') \<Rightarrow> (Inl ShutdownException, r')
      | (False, r') \<Rightarrow> (Inr (), r'))"








subsection \<open>Results of calls\<close>

text \<open>
  A call returns, raises, or never comes back (a callable that loops, a polling loop
  whose condition never changes).
\<close>

datatype 'a result = Returns 'a | Raises exn | Hangs

subsection \<open>Jobs\<close>

type_synonym job_id = nat
type_synonym slot = string

text \<open>
  The classes \<^verbatim>\<open>SchedulableJob\<close>, \<^verbatim>\<open>SingleJob\<close> and \<^verbatim>\<open>RepeatingJob\<close>; the tag selects
  the override a method call dispatches to.
\<close>

datatype job_class = SchedulableJobClass | SingleJobClass | RepeatingJobClass

text \<open>
  The attributes of a job object. The \<^verbatim>\<open>threading.Event\<close>s are their flags.
  \<^verbatim>\<open>work_complete\<close> is set by \<^verbatim>\<open>SingleJob.__init__\<close> only, \<^verbatim>\<open>period\<close> and
  \<^verbatim>\<open>stop_repeating\<close> by \<^verbatim>\<open>RepeatingJob.__init__\<close> only.
\<close>

record job =
  job_class :: job_class
  should_delay_on_wakeup :: bool
  next_work_time :: real
  thread_slot_type :: "slot option"
  currently_working :: bool
  is_cancelled :: bool
  work_complete :: bool
  period :: real
  stop_repeating :: bool

text \<open>
  The state the jobs and the scheduler share: the job objects, the attributes of the
  \<^verbatim>\<open>JobScheduler\<close>, and the calls made on the controller and on work callables, in the
  order made: \<^verbatim>\<open>pool\<close> lists the jobs whose \<^verbatim>\<open>Work\<close> was handed to
  \<^verbatim>\<open>controller.CallToThread\<close>, \<^verbatim>\<open>invoked\<close> the jobs whose work callable was called,
  \<^verbatim>\<open>released\<close> the arguments of \<^verbatim>\<open>HG.controller.ReleaseThreadSlot\<close>.
\<close>

record state =
  jobs :: "job_id \<Rightarrow> job"
  waiting :: "job_id list"
  new_job_arrived :: bool
  cancel_filter_needed :: bool
  sort_needed :: bool
  pool :: "job_id list"
  invoked :: "job_id list"
  released :: "slot list"

definition update_job :: "job_id \<Rightarrow> (job \<Rightarrow> job) \<Rightarrow> state \<Rightarrow> state" where
  "update_job j f s = s \<lparr> jobs := (jobs s)(j := f (jobs s j)) \<rparr>"

text \<open>\<^verbatim>\<open>SchedulableJob.__init__\<close>, with the clock reading \<^verbatim>\<open>GetNowFloat()\<close> it takes.\<close>

definition SchedulableJob_init :: "real \<Rightarrow> real \<Rightarrow> job" where
  "SchedulableJob_init now initial_delay =
     \<lparr> job_class = SchedulableJobClass, should_delay_on_wakeup = False,
       next_work_time = now + initial_delay, thread_slot_type = None,
       currently_working = False, is_cancelled = False,
       work_complete = False, period = 0, stop_repeating = False \<rparr>"

definition SingleJob_init :: "real \<Rightarrow> real \<Rightarrow> job" where
  "SingleJob_init now initial_delay =
     (SchedulableJob_init now initial_delay)
       \<lparr> job_class := SingleJobClass, work_complete := False \<rparr>"

definition RepeatingJob_init :: "real \<Rightarrow> real \<Rightarrow> real \<Rightarrow> job" where
  "RepeatingJob_init now initial_delay p =
     (SchedulableJob_init now initial_delay)
       \<lparr> job_class := RepeatingJobClass, period := p, stop_repeating := False \<rparr>"

text \<open>\<^verbatim>\<open>__lt__\<close>, on the job objects two references name.\<close>

definition job_lt :: "(job_id \<Rightarrow> job) \<Rightarrow> job_id \<Rightarrow> job_id \<Rightarrow> bool" where
  "job_lt js a b = (next_work_time (js a) < next_work_time (js b))"

definition CurrentlyWorking :: "job \<Rightarrow> bool" where
  "CurrentlyWorking j = currently_working j"

definition IsCancelled :: "job \<Rightarrow> bool" where
  "IsCancelled j = is_cancelled j"

definition IsDue :: "real \<Rightarrow> job \<Rightarrow> bool" where
  "IsDue now j = TimeHasPassedFloat now (next_work_time j)"

definition IsWorkComplete :: "job \<Rightarrow> bool" where
  "IsWorkComplete j = work_complete j"

definition IsRepeatingWorkFinished :: "job \<Rightarrow> bool" where
  "IsRepeatingWorkFinished j = stop_repeating j"

definition SetThreadSlotType :: "job_id \<Rightarrow> slot \<Rightarrow> state \<Rightarrow> state" where
  "SetThreadSlotType j thread_type s =
     update_job j (\<lambda>job. job \<lparr> thread_slot_type := Some thread_type \<rparr>) s"

definition ShouldDelayOnWakeup :: "job_id \<Rightarrow> bool \<Rightarrow> state \<Rightarrow> state" where
  "ShouldDelayOnWakeup j v s =
     update_job j (\<lambda>job. job \<lparr> should_delay_on_wakeup := v \<rparr>) s"

text \<open>The scheduler's \<^verbatim>\<open>JobCancelled\<close> and \<^verbatim>\<open>WorkTimesHaveChanged\<close> set the lazy flags.\<close>

definition JobCancelled :: "state \<Rightarrow> state" where
  "JobCancelled s = s \<lparr> cancel_filter_needed := True \<rparr>"

definition WorkTimesHaveChanged :: "state \<Rightarrow> state" where
  "WorkTimesHaveChanged s = s \<lparr> sort_needed := True \<rparr>"

text \<open>
  \<^verbatim>\<open>Cancel\<close>: \<^verbatim>\<open>SchedulableJob.Cancel\<close>, and for a \<^verbatim>\<open>RepeatingJob\<close> the override, which
  sets \<^verbatim>\<open>stop_repeating\<close> after it.
\<close>

definition SchedulableJob_Cancel :: "job_id \<Rightarrow> state \<Rightarrow> state" where
  "SchedulableJob_Cancel j s =
     JobCancelled (update_job j (\<lambda>job. job \<lparr> is_cancelled := True \<rparr>) s)"

definition Cancel :: "job_id \<Rightarrow> state \<Rightarrow> state" where
  "Cancel j s =
     (if job_class (jobs s j) = RepeatingJobClass
      then update_job j (\<lambda>job. job \<lparr> stop_repeating := True \<rparr>) (SchedulableJob_Cancel j s)
      else SchedulableJob_Cancel j s)"

text \<open>
  \<^verbatim>\<open>SlotOK\<close>, given the controller's answer to \<^verbatim>\<open>AcquireThreadSlot\<close>, the clock reading
  \<^verbatim>\<open>GetNowFloat()\<close> and the value of \<^verbatim>\<open>random.random()\<close>. It returns its answer and the
  job as it leaves it.
\<close>

definition SlotOK :: "(slot \<Rightarrow> bool) \<Rightarrow> real \<Rightarrow> real \<Rightarrow> job \<Rightarrow> bool \<times> job" where
  "SlotOK AcquireThreadSlot now rnd job =
     (case thread_slot_type job of
        Some t \<Rightarrow>
          (if AcquireThreadSlot t then (True, job)
           else (False, job \<lparr> next_work_time := now + 10 + rnd \<rparr>))
      | None \<Rightarrow> (True, job))"

text \<open>
  \<^verbatim>\<open>StartWork\<close>: \<^verbatim>\<open>_BootWorker\<close> hands \<^verbatim>\<open>self.Work\<close> to \<^verbatim>\<open>controller.CallToThread\<close>.
  The override of \<^verbatim>\<open>RepeatingJob\<close> returns at once when \<^verbatim>\<open>stop_repeating\<close> is set.
\<close>

definition SchedulableJob_StartWork :: "job_id \<Rightarrow> state \<Rightarrow> state" where
  "SchedulableJob_StartWork j s =
     (if is_cancelled (jobs s j) then s
      else (update_job j (\<lambda>job. job \<lparr> currently_working := True \<rparr>) s)
             \<lparr> pool := pool s @ [j] \<rparr>)"

definition StartWork :: "job_id \<Rightarrow> state \<Rightarrow> state" where
  "StartWork j s =
     (if job_class (jobs s j) = RepeatingJobClass \<and> stop_repeating (jobs s j) then s
      else SchedulableJob_StartWork j s)"

text \<open>\<^verbatim>\<open>Wake( next_work_time = None )\<close>, with the clock reading used for the default.\<close>

definition Wake :: "real \<Rightarrow> job_id \<Rightarrow> real option \<Rightarrow> state \<Rightarrow> state" where
  "Wake now j next_work_time_arg s =
     WorkTimesHaveChanged
       (update_job j
          (\<lambda>job. job \<lparr> next_work_time :=
                          (case next_work_time_arg of None \<Rightarrow> now | Some t \<Rightarrow> t) \<rparr>) s)"

text \<open>\<^verbatim>\<open>RepeatingJob.Delay\<close> and \<^verbatim>\<open>RepeatingJob.SetPeriod\<close>.\<close>

definition Delay :: "real \<Rightarrow> job_id \<Rightarrow> real \<Rightarrow> state \<Rightarrow> state" where
  "Delay now j delay s =
     WorkTimesHaveChanged
       (update_job j (\<lambda>job. job \<lparr> next_work_time := now + delay \<rparr>) s)"

definition SetPeriod :: "real \<Rightarrow> job_id \<Rightarrow> real \<Rightarrow> state \<Rightarrow> state" where
  "SetPeriod rnd j p s =
     update_job j (\<lambda>job. job \<lparr> period := (if p > 10 then p + rnd else p) \<rparr>) s"

subsection \<open>Sorted insertion\<close>

text \<open>
  \<^verbatim>\<open>bisect.insort( a, x )\<close> of the Python library, which the scheduler calls on its list
  of jobs: the binary search \<^verbatim>\<open>bisect_right\<close> with \<^verbatim>\<open>lo = 0\<close>, \<^verbatim>\<open>hi = len( a )\<close>, comparing
  by \<^verbatim>\<open>x < a[mid]\<close> (the \<^verbatim>\<open>__lt__\<close> of \<open>x\<close>), then \<^verbatim>\<open>a.insert( lo, x )\<close>. The search
  reads \<^verbatim>\<open>a[mid]\<close> with \<^verbatim>\<open>lo <= mid < hi\<close> only, inside the list.
\<close>

function bisect_right :: "('a \<Rightarrow> 'a \<Rightarrow> bool) \<Rightarrow> 'a list \<Rightarrow> 'a \<Rightarrow> nat \<Rightarrow> nat \<Rightarrow> nat" where
  "bisect_right lt a x lo hi =
     (if lo < hi
      then (if lt x (a ! ((lo + hi) div 2))
            then bisect_right lt a x lo ((lo + hi) div 2)
            else bisect_right lt a x ((lo + hi) div 2 + 1) hi)
      else lo)"
  by pat_completeness auto
termination
  by (relation "measure (\<lambda>(lt, a, x, lo, hi). hi - lo)") auto

declare bisect_right.simps [simp del]

definition bisect_insort :: "('a \<Rightarrow> 'a \<Rightarrow> bool) \<Rightarrow> 'a list \<Rightarrow> 'a \<Rightarrow> 'a list" where
  "bisect_insort lt a x =
     (let lo = bisect_right lt a x 0 (length a) in take lo a @ x # drop lo a)"

subsection \<open>The job scheduler\<close>

text \<open>\<^verbatim>\<open>JobScheduler.__init__\<close>, over the job objects that exist.\<close>

definition JobScheduler_init :: "(job_id \<Rightarrow> job) \<Rightarrow> state" where
  "JobScheduler_init js =
     \<lparr> jobs = js, waiting = [], new_job_arrived = False, cancel_filter_needed = False,
       sort_needed = False, pool = [], invoked = [], released = [] \<rparr>"

definition FilterCancelled :: "state \<Rightarrow> state" where
  "FilterCancelled s =
     s \<lparr> waiting := filter (\<lambda>job. \<not> IsCancelled (jobs s job)) (waiting s) \<rparr>"

definition NoWorkToStart :: "real \<Rightarrow> state \<Rightarrow> bool" where
  "NoWorkToStart now s =
     (case waiting s of
        [] \<Rightarrow> True
      | next_job # _ \<Rightarrow> (if IsDue now (jobs s next_job) then False else True))"

text \<open>
  \<^verbatim>\<open>_SortWaiting\<close>: \<^verbatim>\<open>list.sort()\<close> orders by \<^verbatim>\<open>__lt__\<close>, that is by due time, and is
  stable.
\<close>

definition SortWaiting :: "state \<Rightarrow> state" where
  "SortWaiting s =
     s \<lparr> waiting := sort_key (\<lambda>job. next_work_time (jobs s job)) (waiting s) \<rparr>"

definition AddJob :: "job_id \<Rightarrow> state \<Rightarrow> state" where
  "AddJob job s =
     s \<lparr> waiting := bisect_insort (job_lt (jobs s)) (waiting s) job,
         new_job_arrived := True \<rparr>"

text \<open>
  The two lazy passes of \<^verbatim>\<open>JobScheduler.run\<close>: each runs when its flag is set and clears
  the flag.
\<close>

definition filter_pass :: "state \<Rightarrow> state" where
  "filter_pass s =
     (if cancel_filter_needed s then (FilterCancelled s) \<lparr> cancel_filter_needed := False \<rparr>
      else s)"

definition sort_pass :: "state \<Rightarrow> state" where
  "sort_pass s =
     (if sort_needed s then (SortWaiting s) \<lparr> sort_needed := False \<rparr> else s)"

subsection \<open>Running a job\<close>

text \<open>
  What one run of \<^verbatim>\<open>Work\<close> observes: the successive readings of
  \<^verbatim>\<open>HG.controller.JustWokeFromSleep()\<close> and \<^verbatim>\<open>IsThreadShuttingDown()\<close> in the polling
  loop, what the call of the work callable does, and the clock reading
  \<^verbatim>\<open>GetNowFloat()\<close> a \<^verbatim>\<open>RepeatingJob\<close> takes afterwards.
\<close>

record work_obs =
  polls :: "(bool \<times> bool) list"
  callable_outcome :: "unit result"
  now_after :: real

text \<open>
  The loop \<^verbatim>\<open>while JustWokeFromSleep(): if IsThreadShuttingDown(): return; sleep( 1 )\<close>.
  A run that is still polling when the readings end never leaves the loop.
\<close>

datatype delay_outcome = DelayOver | ShutdownSeen | StillAsleep

fun wake_poll :: "(bool \<times> bool) list \<Rightarrow> delay_outcome" where
  "wake_poll [] = StillAsleep"
| "wake_poll ((just_woke, thread_shutting_down) # rest) =
     (if just_woke then (if thread_shutting_down then ShutdownSeen else wake_poll rest)
      else DelayOver)"

text \<open>The \<^verbatim>\<open>finally\<close> block of \<^verbatim>\<open>SchedulableJob.Work\<close>.\<close>

definition Work_finally :: "job_id \<Rightarrow> state \<Rightarrow> state" where
  "Work_finally j s =
     update_job j (\<lambda>job. job \<lparr> currently_working := False \<rparr>)
       (case thread_slot_type (jobs s j) of
          Some t \<Rightarrow> s \<lparr> released := released s @ [t] \<rparr>
        | None \<Rightarrow> s)"

text \<open>
  \<^verbatim>\<open>SchedulableJob.Work\<close>. The \<^verbatim>\<open>try\<close> has a \<^verbatim>\<open>finally\<close> and no \<^verbatim>\<open>except\<close>: an
  exception of the work callable leaves \<^verbatim>\<open>Work\<close> after the \<^verbatim>\<open>finally\<close> block. One run
  is one atomic step here, so the job's \<^verbatim>\<open>_work_lock\<close> is free when it is taken.
\<close>

definition SchedulableJob_Work :: "work_obs \<Rightarrow> job_id \<Rightarrow> state \<Rightarrow> unit result \<times> state" where
  "SchedulableJob_Work ob j s =
     (case (if should_delay_on_wakeup (jobs s j) then wake_poll (polls ob) else DelayOver) of
        StillAsleep \<Rightarrow> (Hangs, s)
      | ShutdownSeen \<Rightarrow> (Returns (), Work_finally j s)
      | DelayOver \<Rightarrow>
          (case callable_outcome ob of
             Hangs \<Rightarrow> (Hangs, s \<lparr> invoked := invoked s @ [j] \<rparr>)
           | Returns _ \<Rightarrow> (Returns (), Work_finally j (s \<lparr> invoked := invoked s @ [j] \<rparr>))
           | Raises e \<Rightarrow> (Raises e, Work_finally j (s \<lparr> invoked := invoked s @ [j] \<rparr>))))"

text \<open>\<^verbatim>\<open>SingleJob.Work\<close>: the base \<^verbatim>\<open>Work\<close>, then \<^verbatim>\<open>self._work_complete.set()\<close>.\<close>

definition SingleJob_Work :: "work_obs \<Rightarrow> job_id \<Rightarrow> state \<Rightarrow> unit result \<times> state" where
  "SingleJob_Work ob j s =
     (case SchedulableJob_Work ob j s of
        (Returns _, s') \<Rightarrow> (Returns (), update_job j (\<lambda>job. job \<lparr> work_complete := True \<rparr>) s')
      | (Raises e, s') \<Rightarrow> (Raises e, s')
      | (Hangs, s') \<Rightarrow> (Hangs, s'))"

text \<open>\<^verbatim>\<open>RepeatingJob.Work\<close>: the base \<^verbatim>\<open>Work\<close>, then the job adds itself again.\<close>

definition RepeatingJob_Work :: "work_obs \<Rightarrow> job_id \<Rightarrow> state \<Rightarrow> unit result \<times> state" where
  "RepeatingJob_Work ob j s =
     (case SchedulableJob_Work ob j s of
        (Returns _, s') \<Rightarrow>
          (Returns (),
           if \<not> stop_repeating (jobs s' j)
           then AddJob j (update_job j
                  (\<lambda>job. job \<lparr> next_work_time := now_after ob + period job \<rparr>) s')
           else s')
      | (Raises e, s') \<Rightarrow> (Raises e, s')
      | (Hangs, s') \<Rightarrow> (Hangs, s'))"

definition Work :: "work_obs \<Rightarrow> job_id \<Rightarrow> state \<Rightarrow> unit result \<times> state" where
  "Work ob j s =
     (case job_class (jobs s j) of
        SchedulableJobClass \<Rightarrow> SchedulableJob_Work ob j s
      | SingleJobClass \<Rightarrow> SingleJob_Work ob j s
      | RepeatingJobClass \<Rightarrow> RepeatingJob_Work ob j s)"

subsection \<open>What other threads do\<close>

text \<open>
  The calls other threads make on the jobs and the scheduler: the public operations, and
  a pool thread running a job's \<^verbatim>\<open>Work\<close>. Each carries what it reads of the world.
\<close>

datatype action =
    ActAddJob job_id
  | ActCancel job_id
  | ActWake real job_id "real option"
  | ActDelay real job_id real
  | ActSetPeriod real job_id real
  | ActSetThreadSlotType job_id slot
  | ActShouldDelayOnWakeup job_id bool
  | ActWork work_obs job_id

fun run_action :: "action \<Rightarrow> state \<Rightarrow> state" where
  "run_action (ActAddJob j) s = AddJob j s"
| "run_action (ActCancel j) s = Cancel j s"
| "run_action (ActWake now j t) s = Wake now j t s"
| "run_action (ActDelay now j d) s = Delay now j d s"
| "run_action (ActSetPeriod rnd j p) s = SetPeriod rnd j p s"
| "run_action (ActSetThreadSlotType j t) s = SetThreadSlotType j t s"
| "run_action (ActShouldDelayOnWakeup j v) s = ShouldDelayOnWakeup j v s"
| "run_action (ActWork ob j) s = snd (Work ob j s)"

fun run_actions :: "action list \<Rightarrow> state \<Rightarrow> state" where
  "run_actions [] s = s"
| "run_actions (a # as) s = run_actions as (run_action a s)"

subsection \<open>The dispatch phase\<close>

text \<open>
  What one iteration of the loop of \<^verbatim>\<open>JobScheduler._StartWork\<close> observes: the clock
  reading of \<^verbatim>\<open>IsDue\<close>, then in \<^verbatim>\<open>SlotOK\<close> the controller's answers to
  \<^verbatim>\<open>AcquireThreadSlot\<close>, the clock reading and the value of \<^verbatim>\<open>random.random()\<close>; and
  what other threads do after the iteration releases \<^verbatim>\<open>_waiting_lock\<close>, before the next
  one takes it.
\<close>

record tick =
  tick_now_due :: real
  tick_acquire :: "slot \<Rightarrow> bool"
  tick_now_slot :: real
  tick_random :: real
  tick_meanwhile :: "action list"

datatype loop_ctl = Break | Continue

text \<open>
  One iteration of \<^verbatim>\<open>while True\<close> in \<^verbatim>\<open>_StartWork\<close>, on the state and the local
  \<^verbatim>\<open>jobs_started\<close>.
\<close>

definition StartWork_iteration :: "tick \<Rightarrow> state \<Rightarrow> nat \<Rightarrow> loop_ctl \<times> state \<times> nat" where
  "StartWork_iteration k s jobs_started =
     (case waiting s of
        [] \<Rightarrow> (Break, s, jobs_started)
      | next_job # rest \<Rightarrow>
          (if jobs_started \<ge> 10 then (Break, s, jobs_started)
           else if IsDue (tick_now_due k) (jobs s next_job)
           then (let s1 = s \<lparr> waiting := rest \<rparr> in
                 if IsCancelled (jobs s1 next_job) then (Continue, s1, jobs_started)
                 else (case SlotOK (tick_acquire k) (tick_now_slot k) (tick_random k)
                              (jobs s1 next_job) of
                         (True, job') \<Rightarrow>
                           (Continue,
                            StartWork next_job (update_job next_job (\<lambda>_. job') s1),
                            jobs_started + 1)
                       | (False, job') \<Rightarrow>
                           (let s2 = update_job next_job (\<lambda>_. job') s1 in
                            (Continue,
                             s2 \<lparr> waiting :=
                                    bisect_insort (job_lt (jobs s2)) (waiting s2) next_job \<rparr>,
                             jobs_started))))
           else (Break, s, jobs_started)))"

text \<open>
  The loop, one \<open>tick\<close> per iteration. The first component of the result tells whether
  the loop has left through a \<^verbatim>\<open>break\<close>; it is \<open>False\<close> when the ticks end with the loop
  still running.
\<close>

fun StartWork_loop :: "tick list \<Rightarrow> state \<Rightarrow> nat \<Rightarrow> bool \<times> state \<times> nat" where
  "StartWork_loop [] s jobs_started = (False, s, jobs_started)"
| "StartWork_loop (k # ks) s jobs_started =
     (case StartWork_iteration k s jobs_started of
        (Break, s', n) \<Rightarrow> (True, s', n)
      | (Continue, s', n) \<Rightarrow> StartWork_loop ks (run_actions (tick_meanwhile k) s') n)"

definition JobScheduler_StartWork :: "tick list \<Rightarrow> state \<Rightarrow> bool \<times> state \<times> nat" where
  "JobScheduler_StartWork ks s = StartWork_loop ks s 0"

definition dispatch_returned :: "bool \<times> state \<times> nat \<Rightarrow> bool" where
  "dispatch_returned r = fst r"

definition dispatch_state :: "bool \<times> state \<times> nat \<Rightarrow> state" where
  "dispatch_state r = fst (snd r)"

definition dispatch_jobs_started :: "bool \<times> state \<times> nat \<Rightarrow> nat" where
  "dispatch_jobs_started r = snd (snd r)"

subsection \<open>Histories\<close>

text \<open>
  A history interleaves what the scheduler thread does in \<^verbatim>\<open>run\<close> (a filter pass, a sort
  pass, a dispatch phase) with what other threads do.
\<close>

datatype step =
    Other action
  | FilterPass
  | SortPass
  | Dispatch "tick list"

fun run_step :: "step \<Rightarrow> state \<Rightarrow> state" where
  "run_step (Other a) s = run_action a s"
| "run_step FilterPass s = filter_pass s"
| "run_step SortPass s = sort_pass s"
| "run_step (Dispatch ks) s = dispatch_state (JobScheduler_StartWork ks s)"

fun run_history :: "step list \<Rightarrow> state \<Rightarrow> state" where
  "run_history [] s = s"
| "run_history (x # xs) s = run_history xs (run_step x s)"

subsection \<open>Histories that keep refusing a slot\<close>





subsection \<open>The order of the pending collection\<close>








subsection \<open>A dispatch phase under a steady clock\<close>

text \<open>
  The observations of a dispatch phase during which the clock reads \<open>now\<close> throughout,
  the jitter is not negative and no other thread acts; and the number of entries of the
  pending collection that are due at \<open>now\<close>.
\<close>

definition steady_tick :: "real \<Rightarrow> tick \<Rightarrow> bool" where
  "steady_tick now k =
     (tick_now_due k = now \<and> tick_now_slot k = now \<and> 0 \<le> tick_random k
      \<and> tick_meanwhile k = [])"

definition due_entries :: "real \<Rightarrow> state \<Rightarrow> nat" where
  "due_entries now s = length (filter (\<lambda>job. IsDue now (jobs s job)) (waiting s))"

subsection \<open>Daemons\<close>

text \<open>
  What \<^verbatim>\<open>HydrusData.ShowText\<close>, \<^verbatim>\<open>HydrusData.ShowException\<close> and
  \<^verbatim>\<open>HydrusData.Print( traceback.format_exc() )\<close> are called with, in the order called.
\<close>

datatype log_entry = ShowText string | ShowException exn | PrintTraceback exn

text \<open>\<^verbatim>\<open>DAEMON._DoPreCall\<close>, given \<^verbatim>\<open>HG.daemon_report_mode\<close>.\<close>

definition DoPreCall :: "bool \<Rightarrow> string \<Rightarrow> log_entry list \<Rightarrow> log_entry list" where
  "DoPreCall daemon_report_mode name lg =
     (if daemon_report_mode then lg @ [ShowText (name @ '' doing a job.'')] else lg)"

subsection \<open>DAEMONWorker\<close>

datatype worker_class = DAEMONWorkerClass | DAEMONBackgroundWorkerClass | DAEMONForegroundWorkerClass

text \<open>
  The attributes \<^verbatim>\<open>__init__\<close> sets (\<^verbatim>\<open>_name\<close>, \<^verbatim>\<open>_period\<close>, \<^verbatim>\<open>_init_wait\<close>,
  \<^verbatim>\<open>_pre_call_wait\<close>, in seconds) and the class of the worker.
\<close>

record worker_config =
  worker_class :: worker_class
  worker_name :: string
  worker_period :: int
  worker_init_wait :: int
  worker_pre_call_wait :: int

text \<open>
  What the thread has done so far: the log, and how many times it has called its
  callable.
\<close>

record worker =
  worker_log :: "log_entry list"
  worker_calls :: nat

text \<open>
  What one pass of the loop of \<^verbatim>\<open>_DoAWait\<close> observes: the clock reading of the loop
  test, whether \<^verbatim>\<open>self._event.wait( 1.0 )\<close> found the event set, and the answer of
  \<^verbatim>\<open>IsThreadShuttingDown()\<close> in the checkpoint. A call of \<^verbatim>\<open>_DoAWait\<close> observes the
  clock once on entry, then its passes.
\<close>

record wait_poll =
  poll_clock :: int
  poll_event_was_set :: bool
  poll_shutting_down :: bool

record wait_obs =
  wait_entered :: int
  wait_polls :: "wait_poll list"

text \<open>
  The loop of \<^verbatim>\<open>_DoAWait\<close>. A wait that is still looping when its observations end never
  returns.
\<close>

fun DoAWait_loop :: "int \<Rightarrow> bool \<Rightarrow> wait_poll list \<Rightarrow> unit result" where
  "DoAWait_loop time_to_start event_can_wake [] = Hangs"
| "DoAWait_loop time_to_start event_can_wake (p # ps) =
     (if TimeHasPassed (poll_clock p) time_to_start then Returns ()
      else if event_can_wake \<and> poll_event_was_set p then Returns ()
      else if poll_shutting_down p then Raises ShutdownException
      else DoAWait_loop time_to_start event_can_wake ps)"

definition DoAWait :: "int \<Rightarrow> bool \<Rightarrow> wait_obs \<Rightarrow> unit result" where
  "DoAWait wait_time event_can_wake ob =
     DoAWait_loop (wait_entered ob + wait_time) event_can_wake (wait_polls ob)"

text \<open>
  What one pass of \<^verbatim>\<open>_WaitUntilCanStart\<close> observes: the controller's answers to
  \<^verbatim>\<open>GoodTimeToStartBackgroundWork()\<close> and \<^verbatim>\<open>GoodTimeToStartForegroundWork()\<close>, and the
  answer of \<^verbatim>\<open>IsThreadShuttingDown()\<close> in the checkpoint.
\<close>

record start_poll =
  poll_good_time_background :: bool
  poll_good_time_foreground :: bool
  poll_start_shutting_down :: bool

definition ControllerIsOKWithIt :: "worker_class \<Rightarrow> start_poll \<Rightarrow> bool" where
  "ControllerIsOKWithIt c p =
     (case c of
        DAEMONWorkerClass \<Rightarrow> True
      | DAEMONBackgroundWorkerClass \<Rightarrow> poll_good_time_background p
      | DAEMONForegroundWorkerClass \<Rightarrow> poll_good_time_foreground p)"

definition CanStart :: "worker_class \<Rightarrow> start_poll \<Rightarrow> bool" where
  "CanStart c p = ControllerIsOKWithIt c p"

fun WaitUntilCanStart :: "worker_class \<Rightarrow> start_poll list \<Rightarrow> unit result" where
  "WaitUntilCanStart c [] = Hangs"
| "WaitUntilCanStart c (p # ps) =
     (if CanStart c p then Returns ()
      else if poll_start_shutting_down p then Raises ShutdownException
      else WaitUntilCanStart c ps)"

text \<open>
  What one pass of the \<^verbatim>\<open>while True\<close> of \<^verbatim>\<open>DAEMONWorker.run\<close> observes: the answers of
  \<^verbatim>\<open>IsThreadShuttingDown()\<close> at its three checkpoints, its waits,
  \<^verbatim>\<open>HG.daemon_report_mode\<close>, and what the call of the work callable does. The
  controller's predicates and the log sinks return; they raise nothing.
\<close>

record cycle =
  cycle_check1 :: bool
  cycle_pre_call_wait :: wait_obs
  cycle_check2 :: bool
  cycle_start_polls :: "start_poll list"
  cycle_check3 :: bool
  cycle_report_mode :: bool
  cycle_outcome :: "unit result"
  cycle_period_wait :: wait_obs

text \<open>
  The \<^verbatim>\<open>try\<close> around the call of the work callable in \<^verbatim>\<open>DAEMONWorker.run\<close>. The first
  component tells whether the handler of \<^verbatim>\<open>ShutdownException\<close> has made \<^verbatim>\<open>run\<close>
  return; a callable that never returns gives \<open>Hangs\<close>.
\<close>

datatype call_end = Proceeds | RunReturns | NeverEnds

definition call_callable :: "worker_config \<Rightarrow> unit result \<Rightarrow> worker \<Rightarrow> call_end \<times> worker" where
  "call_callable cfg outcome d =
     (let d1 = d \<lparr> worker_calls := worker_calls d + 1 \<rparr> in
      case outcome of
        Returns _ \<Rightarrow> (Proceeds, d1)
      | Hangs \<Rightarrow> (NeverEnds, d1)
      | Raises ShutdownException \<Rightarrow> (RunReturns, d1)
      | Raises e \<Rightarrow>
          (Proceeds,
           d1 \<lparr> worker_log := worker_log d1 @
                  [ShowText (''Daemon '' @ worker_name cfg @ '' encountered an exception:''),
                   ShowException e] \<rparr>))"

text \<open>
  The steps of one pass of the \<^verbatim>\<open>while True\<close> of \<^verbatim>\<open>DAEMONWorker.run\<close> that come
  before \<^verbatim>\<open>_DoPreCall\<close>: checkpoint, pre-call wait (the event cannot wake it),
  checkpoint, \<^verbatim>\<open>_WaitUntilCanStart\<close>, checkpoint.
\<close>

definition reach_call :: "worker_config \<Rightarrow> cycle \<Rightarrow> unit result" where
  "reach_call cfg c =
     (if cycle_check1 c then Raises ShutdownException
      else case DoAWait (worker_pre_call_wait cfg) False (cycle_pre_call_wait c) of
        Raises e \<Rightarrow> Raises e
      | Hangs \<Rightarrow> Hangs
      | Returns _ \<Rightarrow>
         (if cycle_check2 c then Raises ShutdownException
          else case WaitUntilCanStart (worker_class cfg) (cycle_start_polls c) of
            Raises e \<Rightarrow> Raises e
          | Hangs \<Rightarrow> Hangs
          | Returns _ \<Rightarrow>
             (if cycle_check3 c then Raises ShutdownException else Returns ())))"

text \<open>
  The \<^verbatim>\<open>while True\<close> of \<^verbatim>\<open>DAEMONWorker.run\<close>, one \<open>cycle\<close> per pass. \<open>Returns\<close>: \<^verbatim>\<open>run\<close>
  has returned from inside the loop; \<open>Raises\<close>: an exception leaves the loop; \<open>Hangs\<close>:
  the thread is still in the loop when the observations end.
\<close>

fun DAEMONWorker_loop :: "worker_config \<Rightarrow> cycle list \<Rightarrow> worker \<Rightarrow> unit result \<times> worker" where
  "DAEMONWorker_loop cfg [] d = (Hangs, d)"
| "DAEMONWorker_loop cfg (c # cs) d =
     (case reach_call cfg c of
        Raises e \<Rightarrow> (Raises e, d)
      | Hangs \<Rightarrow> (Hangs, d)
      | Returns _ \<Rightarrow>
          (case call_callable cfg (cycle_outcome c)
                  (d \<lparr> worker_log :=
                        DoPreCall (cycle_report_mode c) (worker_name cfg) (worker_log d) \<rparr>) of
             (RunReturns, d') \<Rightarrow> (Returns (), d')
           | (NeverEnds, d') \<Rightarrow> (Hangs, d')
           | (Proceeds, d') \<Rightarrow>
               (case DoAWait (worker_period cfg) True (cycle_period_wait c) of
                  Raises e \<Rightarrow> (Raises e, d')
                | Hangs \<Rightarrow> (Hangs, d')
                | Returns _ \<Rightarrow> DAEMONWorker_loop cfg cs d')))"

text \<open>
  \<^verbatim>\<open>DAEMONWorker.run\<close>: the initial wait and the loop, inside the \<^verbatim>\<open>try\<close> whose handler
  returns on \<^verbatim>\<open>ShutdownException\<close>. \<open>Returns\<close>: the thread has ended by returning from
  \<^verbatim>\<open>run\<close>; \<open>Raises\<close>: the thread has ended by an exception that left \<^verbatim>\<open>run\<close>;
  \<open>Hangs\<close>: the thread is still running when the observations end.
\<close>

record run_obs =
  run_init_wait :: wait_obs
  run_cycles :: "cycle list"

definition DAEMONWorker_run :: "worker_config \<Rightarrow> run_obs \<Rightarrow> worker \<Rightarrow> unit result \<times> worker" where
  "DAEMONWorker_run cfg ob d =
     (case (case DoAWait (worker_init_wait cfg) True (run_init_wait ob) of
              Raises e \<Rightarrow> (Raises e, d)
            | Hangs \<Rightarrow> (Hangs, d)
            | Returns _ \<Rightarrow> DAEMONWorker_loop cfg (run_cycles ob) d) of
        (Raises ShutdownException, d') \<Rightarrow> (Returns (), d')
      | (r, d') \<Rightarrow> (r, d'))"




subsection \<open>THREADCallToThread\<close>

text \<open>
  \<^verbatim>\<open>Queue.get( block = True, timeout = None )\<close> of the Python library on a queue that no
  other thread touches during the call: an item is taken when there is one; on an empty
  queue a non-blocking call and a blocking call with a timeout raise \<^verbatim>\<open>queue.Empty\<close>,
  and a blocking call with no timeout waits for another thread's \<^verbatim>\<open>put\<close> and raises
  nothing.
\<close>

datatype 'a get_result = Got 'a "'a list" | RaisesEmpty | Waits

definition Queue_get :: "'a list \<Rightarrow> bool \<Rightarrow> real option \<Rightarrow> 'a get_result" where
  "Queue_get q block timeout =
     (case q of
        x # rest \<Rightarrow> Got x rest
      | [] \<Rightarrow>
          (if \<not> block then RaisesEmpty
           else (case timeout of None \<Rightarrow> Waits | Some t \<Rightarrow> RaisesEmpty)))"

text \<open>
  The call \<^verbatim>\<open>self._queue.get( 1.0 )\<close> of \<^verbatim>\<open>THREADCallToThread.run\<close>: the one positional
  argument is \<^verbatim>\<open>block\<close>, true for the float 1.0 as it is not zero, and \<^verbatim>\<open>timeout\<close> keeps
  its default \<^verbatim>\<open>None\<close>.
\<close>

definition dequeue :: "'a list \<Rightarrow> 'a get_result" where
  "dequeue q = Queue_get q ((1::real) \<noteq> 0) None"

type_synonym call = nat

text \<open>
  The attributes of a \<^verbatim>\<open>THREADCallToThread\<close>, the calls it has made and its log. A
  \<open>call\<close> names a triple \<^verbatim>\<open>( callable, args, kwargs )\<close>.
\<close>

record call_to_thread =
  ctt_name :: string
  ctt_callable :: "call option"
  ctt_queue :: "call list"
  ctt_currently_working :: bool
  ctt_event :: bool
  ctt_executed :: "call list"
  ctt_log :: "log_entry list"

definition THREADCallToThread_init :: "string \<Rightarrow> call_to_thread" where
  "THREADCallToThread_init name =
     \<lparr> ctt_name = name, ctt_callable = None, ctt_queue = [], ctt_currently_working = True,
       ctt_event = False, ctt_executed = [], ctt_log = [] \<rparr>"

definition THREADCallToThread_CurrentlyWorking :: "call_to_thread \<Rightarrow> bool" where
  "THREADCallToThread_CurrentlyWorking w = ctt_currently_working w"

definition put :: "call \<Rightarrow> call_to_thread \<Rightarrow> call_to_thread" where
  "put c w =
     w \<lparr> ctt_currently_working := True, ctt_queue := ctt_queue w @ [c], ctt_event := True \<rparr>"

fun puts :: "call list \<Rightarrow> call_to_thread \<Rightarrow> call_to_thread" where
  "puts [] w = w"
| "puts (c # cs) w = puts cs (put c w)"

text \<open>
  What one pass of \<^verbatim>\<open>THREADCallToThread.run\<close> observes, a pass being either one turn of
  the inner loop on an empty queue or one turn of the outer loop past it: the answer of
  \<^verbatim>\<open>IsThreadShuttingDown()\<close> at the checkpoint, \<^verbatim>\<open>HG.daemon_report_mode\<close>, what the call
  taken from the queue does, and the calls other threads \<^verbatim>\<open>put\<close> while the pass waits or
  works and after it.
\<close>

record pass =
  pass_shutting_down :: bool
  pass_report_mode :: bool
  pass_outcome :: "unit result"
  pass_puts_during :: "call list"
  pass_puts_after :: "call list"

text \<open>
  \<^verbatim>\<open>THREADCallToThread.run\<close>, one \<open>pass\<close> at a time. \<open>Returns\<close>: the thread has ended by
  returning from \<^verbatim>\<open>run\<close>; \<open>Hangs\<close>: it is still running when the observations end, or
  waits in \<^verbatim>\<open>get\<close>, or its call never returns. No exception leaves \<^verbatim>\<open>run\<close>: the handlers
  catch every one.
\<close>

fun THREADCallToThread_run :: "pass list \<Rightarrow> call_to_thread \<Rightarrow> unit result \<times> call_to_thread" where
  "THREADCallToThread_run [] w = (Hangs, w)"
| "THREADCallToThread_run (p # ps) w =
     (if ctt_queue w = []
      then (if pass_shutting_down p then (Returns (), w)
            else THREADCallToThread_run ps
                   (puts (pass_puts_after p)
                      ((puts (pass_puts_during p) w) \<lparr> ctt_event := False \<rparr>)))
      else (if pass_shutting_down p then (Returns (), w)
            else (case dequeue (ctt_queue w) of
                    RaisesEmpty \<Rightarrow>
                      THREADCallToThread_run ps
                        (puts (pass_puts_after p) (w \<lparr> ctt_currently_working := False \<rparr>))
                  | Waits \<Rightarrow> (Hangs, w)
                  | Got c rest \<Rightarrow>
                      (let w1 = w \<lparr> ctt_queue := rest,
                                    ctt_log := DoPreCall (pass_report_mode p) (ctt_name w) (ctt_log w),
                                    ctt_callable := Some c,
                                    ctt_executed := ctt_executed w @ [c] \<rparr>
                       in case pass_outcome p of
                            Hangs \<Rightarrow> (Hangs, puts (pass_puts_during p) w1)
                          | Returns _ \<Rightarrow>
                              THREADCallToThread_run ps
                                (puts (pass_puts_after p)
                                   ((puts (pass_puts_during p) w1)
                                      \<lparr> ctt_callable := None, ctt_currently_working := False \<rparr>))
                          | Raises ShutdownException \<Rightarrow>
                              (Returns (),
                               (puts (pass_puts_during p) w1) \<lparr> ctt_currently_working := False \<rparr>)
                          | Raises e \<Rightarrow>
                              THREADCallToThread_run ps
                                (puts (pass_puts_after p)
                                   ((puts (pass_puts_during p) w1)
                                      \<lparr> ctt_log := ctt_log w1 @ [PrintTraceback e, ShowException e],
                                        ctt_currently_working := False \<rparr>))))))"

subsection \<open>Concrete jobs and observations\<close>

text \<open>
  For concrete runs: job \<open>j\<close> is a plain \<^verbatim>\<open>SchedulableJob\<close> created at time 0 with initial
  delay \<open>j\<close>; a scheduler to which the jobs below \<open>n\<close> were added in turn; an
  iteration's observations at a given time with the controller refusing every slot and
  no other thread acting.
\<close>

definition plain_jobs :: "job_id \<Rightarrow> job" where
  "plain_jobs j = SchedulableJob_init 0 (real j)"

fun add_jobs :: "nat \<Rightarrow> state \<Rightarrow> state" where
  "add_jobs 0 s = s"
| "add_jobs (Suc n) s = AddJob n (add_jobs n s)"

definition quiet_tick :: "real \<Rightarrow> tick" where
  "quiet_tick now =
     \<lparr> tick_now_due = now, tick_acquire = (\<lambda>_. False), tick_now_slot = now,
       tick_random = 1 / 2, tick_meanwhile = [] \<rparr>"

text \<open>
  Job \<open>j\<close> as a \<^verbatim>\<open>SingleJob\<close> created at time 0 with initial delay \<open>j\<close>, and what a run
  of \<^verbatim>\<open>Work\<close> observes when the controller reports a wake from sleep at both polls and
  the thread is found shutting down at the second, and when there is no wake from sleep
  and the work callable does as given.
\<close>

definition single_jobs :: "job_id \<Rightarrow> job" where
  "single_jobs j = SingleJob_init 0 (real j)"

definition shutdown_while_asleep :: work_obs where
  "shutdown_while_asleep =
     \<lparr> polls = [(True, False), (True, True)], callable_outcome = Returns (), now_after = 0 \<rparr>"


text \<open>
  A \<^verbatim>\<open>DAEMONWorker\<close> with the default period and waits; a wait whose time has passed
  at the first test of its loop; a pass of the run loop with no shutdown in sight whose
  work callable does as given.
\<close>

definition default_config :: worker_config where
  "default_config =
     \<lparr> worker_class = DAEMONWorkerClass, worker_name = ''daemon'', worker_period = 3600,
       worker_init_wait = 3, worker_pre_call_wait = 0 \<rparr>"

definition fresh_worker :: worker where
  "fresh_worker = \<lparr> worker_log = [], worker_calls = 0 \<rparr>"

definition elapsed_wait :: wait_obs where
  "elapsed_wait =
     \<lparr> wait_entered = 0,
       wait_polls = [\<lparr> poll_clock = 10000, poll_event_was_set = False,
                       poll_shutting_down = False \<rparr>] \<rparr>"

definition calm_cycle :: "unit result \<Rightarrow> cycle" where
  "calm_cycle outcome =
     \<lparr> cycle_check1 = False, cycle_pre_call_wait = elapsed_wait, cycle_check2 = False,
       cycle_start_polls = [\<lparr> poll_good_time_background = True,
                               poll_good_time_foreground = True,
                               poll_start_shutting_down = False \<rparr>],
       cycle_check3 = False, cycle_report_mode = False, cycle_outcome = outcome,
       cycle_period_wait = elapsed_wait \<rparr>"

text \<open>A pass of \<^verbatim>\<open>THREADCallToThread.run\<close> with no shutdown in sight.\<close>

definition calm_pass :: "unit result \<Rightarrow> call list \<Rightarrow> pass" where
  "calm_pass outcome arriving =
     \<lparr> pass_shutting_down = False, pass_report_mode = False, pass_outcome = outcome,
       pass_puts_during = arriving, pass_puts_after = [] \<rparr>"

section \<open>Properties of the thread registry\<close>












section \<open>Properties of sorted insertion\<close>







section \<open>Properties of the dispatch phase\<close>

text \<open>The ways one iteration of the loop of \<^verbatim>\<open>_StartWork\<close> can go.\<close>

lemma StartWork_iteration_cases:
  obtains
    (stop) "StartWork_iteration k s n = (Break, s, n)"
  | (dropped) j rest where
      "waiting s = j # rest" "n < 10" "IsDue (tick_now_due k) (jobs s j)"
      "IsCancelled (jobs s j)"
      "StartWork_iteration k s n = (Continue, s \<lparr> waiting := rest \<rparr>, n)"
  | (started) j rest job' where
      "waiting s = j # rest" "n < 10" "IsDue (tick_now_due k) (jobs s j)"
      "\<not> IsCancelled (jobs s j)"
      "SlotOK (tick_acquire k) (tick_now_slot k) (tick_random k) (jobs s j) = (True, job')"
      "StartWork_iteration k s n =
         (Continue, StartWork j (update_job j (\<lambda>_. job') (s \<lparr> waiting := rest \<rparr>)), Suc n)"
  | (refused) j rest job' where
      "waiting s = j # rest" "n < 10" "IsDue (tick_now_due k) (jobs s j)"
      "\<not> IsCancelled (jobs s j)"
      "SlotOK (tick_acquire k) (tick_now_slot k) (tick_random k) (jobs s j) = (False, job')"
      "StartWork_iteration k s n =
         (Continue,
          (update_job j (\<lambda>_. job') (s \<lparr> waiting := rest \<rparr>))
            \<lparr> waiting := bisect_insort
                 (job_lt (jobs (update_job j (\<lambda>_. job') (s \<lparr> waiting := rest \<rparr>)))) rest j \<rparr>,
          n)"
proof (cases "waiting s")
  case Nil
  then have "StartWork_iteration k s n = (Break, s, n)"
    by (simp add: StartWork_iteration_def)
  then show ?thesis by (rule stop)
next
  case (Cons j rest)
  show ?thesis
  proof (cases "10 \<le> n \<or> \<not> IsDue (tick_now_due k) (jobs s j)")
    case True
    with Cons have "StartWork_iteration k s n = (Break, s, n)"
      by (auto simp: StartWork_iteration_def)
    then show ?thesis by (rule stop)
  next
    case False
    then have n: "n < 10" and due: "IsDue (tick_now_due k) (jobs s j)" by simp_all
    show ?thesis
    proof (cases "IsCancelled (jobs s j)")
      case True
      with Cons n due have
        "StartWork_iteration k s n = (Continue, s \<lparr> waiting := rest \<rparr>, n)"
        by (simp add: StartWork_iteration_def)
      with Cons n due True show ?thesis by (rule dropped)
    next
      case nc: False
      obtain ok job' where
        so: "SlotOK (tick_acquire k) (tick_now_slot k) (tick_random k) (jobs s j) = (ok, job')"
        by (cases "SlotOK (tick_acquire k) (tick_now_slot k) (tick_random k) (jobs s j)")
      show ?thesis
      proof (cases ok)
        case True
        with Cons n due nc so have
          "StartWork_iteration k s n =
            (Continue, StartWork j (update_job j (\<lambda>_. job') (s \<lparr> waiting := rest \<rparr>)), Suc n)"
          by (simp add: StartWork_iteration_def)
        with Cons n due nc so True show ?thesis by (intro started) simp_all
      next
        case False
        with Cons n due nc so have
          "StartWork_iteration k s n =
            (Continue,
             (update_job j (\<lambda>_. job') (s \<lparr> waiting := rest \<rparr>))
               \<lparr> waiting := bisect_insort
                 (job_lt (jobs (update_job j (\<lambda>_. job') (s \<lparr> waiting := rest \<rparr>)))) rest j \<rparr>,
             n)"
          by (simp add: StartWork_iteration_def Let_def update_job_def)
        with Cons n due nc so False show ?thesis by (intro refused) simp_all
      qed
    qed
  qed
qed

subsection \<open>Submissions to the pool\<close>

lemma pool_Work: "pool (snd (Work ob j s)) = pool s"
  by (simp add: Work_def SchedulableJob_Work_def SingleJob_Work_def RepeatingJob_Work_def
        Work_finally_def update_job_def AddJob_def
      split: job_class.splits delay_outcome.splits result.splits option.splits)

lemma pool_run_action: "pool (run_action a s) = pool s"
  by (cases a)
     (simp_all add: pool_Work AddJob_def Cancel_def SchedulableJob_Cancel_def JobCancelled_def
        Wake_def Delay_def SetPeriod_def SetThreadSlotType_def ShouldDelayOnWakeup_def
        WorkTimesHaveChanged_def update_job_def)

lemma pool_run_actions: "pool (run_actions as s) = pool s"
  by (induction as arbitrary: s) (simp_all add: pool_run_action)

lemma pool_StartWork:
  "pool (StartWork j s) = pool s \<or> pool (StartWork j s) = pool s @ [j]"
  by (simp add: StartWork_def SchedulableJob_StartWork_def update_job_def)

lemma StartWork_iteration_pool:
  assumes "StartWork_iteration k s n = (c, s', n')"
  shows "\<exists>new. pool s' = pool s @ new \<and> length new + n \<le> n' \<and> n' \<le> max 10 n"
proof (cases k s n rule: StartWork_iteration_cases)
  case stop
  with assms show ?thesis by auto
next
  case (dropped j rest)
  with assms show ?thesis by auto
next
  case (started j rest job')
  let ?s1 = "update_job j (\<lambda>_. job') (s \<lparr> waiting := rest \<rparr>)"
  have p1: "pool ?s1 = pool s" by (simp add: update_job_def)
  from pool_StartWork [of j ?s1] p1 started assms show ?thesis by auto
next
  case (refused j rest job')
  with assms show ?thesis by (auto simp: update_job_def)
qed

lemma StartWork_loop_pool:
  assumes "n \<le> 10"
  shows "\<exists>new. pool (dispatch_state (StartWork_loop ks s n)) = pool s @ new
           \<and> length new + n \<le> dispatch_jobs_started (StartWork_loop ks s n)
           \<and> dispatch_jobs_started (StartWork_loop ks s n) \<le> 10"
  using assms
proof (induction ks arbitrary: s n)
  case Nil
  then show ?case by (simp add: dispatch_state_def dispatch_jobs_started_def)
next
  case (Cons k ks)
  obtain c s' n' where it: "StartWork_iteration k s n = (c, s', n')"
    by (cases "StartWork_iteration k s n")
  from StartWork_iteration_pool [OF it] obtain new where
    new: "pool s' = pool s @ new" "length new + n \<le> n'" "n' \<le> max 10 n"
    by blast
  from new Cons.prems have n': "n' \<le> 10" by simp
  show ?case
  proof (cases c)
    case Break
    with it new n' show ?thesis
      by (simp add: dispatch_state_def dispatch_jobs_started_def)
  next
    case Continue
    let ?s2 = "run_actions (tick_meanwhile k) s'"
    from Cons.IH [OF n', of ?s2] obtain more where
      more: "pool (dispatch_state (StartWork_loop ks ?s2 n')) = pool ?s2 @ more"
        "length more + n' \<le> dispatch_jobs_started (StartWork_loop ks ?s2 n')"
        "dispatch_jobs_started (StartWork_loop ks ?s2 n') \<le> 10"
      by blast
    have "StartWork_loop (k # ks) s n = StartWork_loop ks ?s2 n'"
      using it Continue by simp
    moreover have "pool ?s2 = pool s @ new"
      using new by (simp add: pool_run_actions)
    ultimately show ?thesis using more new
      by (intro exI [of _ "new @ more"]) simp
  qed
qed

subsection \<open>Cancelled jobs\<close>

text \<open>
  Nothing clears \<^verbatim>\<open>_is_cancelled\<close>, and no step of the scheduler or of another thread
  hands a cancelled job to the pool.
\<close>

lemma is_cancelled_Work_finally:
  "is_cancelled (jobs (Work_finally i s) j) = is_cancelled (jobs s j)"
  by (simp add: Work_finally_def update_job_def split: option.splits)

lemma is_cancelled_Work:
  "is_cancelled (jobs (snd (Work ob i s)) j) = is_cancelled (jobs s j)"
  by (simp add: Work_def SchedulableJob_Work_def SingleJob_Work_def RepeatingJob_Work_def
        is_cancelled_Work_finally update_job_def AddJob_def
      split: job_class.splits delay_outcome.splits result.splits)

lemma is_cancelled_run_action:
  "is_cancelled (jobs s j) \<Longrightarrow> is_cancelled (jobs (run_action a s) j)"
  by (cases a)
     (auto simp: is_cancelled_Work AddJob_def Cancel_def SchedulableJob_Cancel_def
        JobCancelled_def Wake_def Delay_def SetPeriod_def SetThreadSlotType_def
        ShouldDelayOnWakeup_def WorkTimesHaveChanged_def update_job_def)

lemma is_cancelled_run_actions:
  "is_cancelled (jobs s j) \<Longrightarrow> is_cancelled (jobs (run_actions as s) j)"
  by (induction as arbitrary: s) (simp_all add: is_cancelled_run_action)

lemma is_cancelled_Cancel: "is_cancelled (jobs (Cancel j s) j)"
  by (simp add: Cancel_def SchedulableJob_Cancel_def JobCancelled_def update_job_def)

lemma StartWork_cancelled: "is_cancelled (jobs s j) \<Longrightarrow> StartWork j s = s"
  by (simp add: StartWork_def SchedulableJob_StartWork_def)

lemma is_cancelled_StartWork:
  "is_cancelled (jobs (StartWork i s) j) = is_cancelled (jobs s j)"
  by (simp add: StartWork_def SchedulableJob_StartWork_def update_job_def)

lemma is_cancelled_SlotOK:
  "SlotOK acq now rnd job = (ok, job') \<Longrightarrow> is_cancelled job' = is_cancelled job"
  by (auto simp: SlotOK_def split: option.splits if_splits)

lemma StartWork_iteration_cancelled:
  assumes "is_cancelled (jobs s j)" and "StartWork_iteration k s n = (c, s', n')"
  shows "is_cancelled (jobs s' j) \<and> count_list (pool s') j = count_list (pool s) j"
proof (cases k s n rule: StartWork_iteration_cases)
  case stop
  with assms show ?thesis by auto
next
  case (dropped i rest)
  with assms show ?thesis by auto
next
  case (started i rest job')
  from started(4) assms(1) have ij: "i \<noteq> j" by (auto simp: IsCancelled_def)
  let ?s1 = "update_job i (\<lambda>_. job') (s \<lparr> waiting := rest \<rparr>)"
  have s': "s' = StartWork i ?s1" using started(6) assms(2) by simp
  have "is_cancelled (jobs ?s1 j)" using assms(1) ij by (simp add: update_job_def)
  then have c: "is_cancelled (jobs s' j)" by (simp add: s' is_cancelled_StartWork)
  have "pool ?s1 = pool s" by (simp add: update_job_def)
  with pool_StartWork [of i ?s1] ij have "count_list (pool s') j = count_list (pool s) j"
    by (auto simp: s')
  with c show ?thesis by simp
next
  case (refused i rest job')
  from refused(4) assms(1) have ij: "i \<noteq> j" by (auto simp: IsCancelled_def)
  with refused(6) assms show ?thesis by (auto simp: update_job_def)
qed

lemma StartWork_loop_cancelled:
  assumes "is_cancelled (jobs s j)"
  shows "is_cancelled (jobs (dispatch_state (StartWork_loop ks s n)) j)
       \<and> count_list (pool (dispatch_state (StartWork_loop ks s n))) j = count_list (pool s) j"
  using assms
proof (induction ks arbitrary: s n)
  case Nil
  then show ?case by (simp add: dispatch_state_def)
next
  case (Cons k ks)
  obtain c s' n' where it: "StartWork_iteration k s n = (c, s', n')"
    by (cases "StartWork_iteration k s n")
  note step = StartWork_iteration_cancelled [OF Cons.prems it]
  show ?case
  proof (cases c)
    case Break
    with it step show ?thesis by (simp add: dispatch_state_def)
  next
    case Continue
    let ?s2 = "run_actions (tick_meanwhile k) s'"
    have c2: "is_cancelled (jobs ?s2 j)"
      using step by (simp add: is_cancelled_run_actions)
    have "StartWork_loop (k # ks) s n = StartWork_loop ks ?s2 n'"
      using it Continue by simp
    with Cons.IH [OF c2, of n'] step show ?thesis
      by (simp add: pool_run_actions)
  qed
qed

lemma run_step_cancelled:
  assumes "is_cancelled (jobs s j)"
  shows "is_cancelled (jobs (run_step x s) j)
       \<and> count_list (pool (run_step x s)) j = count_list (pool s) j"
proof (cases x)
  case (Other a)
  with assms show ?thesis by (simp add: is_cancelled_run_action pool_run_action)
next
  case FilterPass
  with assms show ?thesis by (simp add: filter_pass_def FilterCancelled_def)
next
  case SortPass
  with assms show ?thesis by (simp add: sort_pass_def SortWaiting_def)
next
  case (Dispatch ks)
  with StartWork_loop_cancelled [OF assms, of ks 0] show ?thesis
    by (simp add: JobScheduler_StartWork_def)
qed

lemma run_history_cancelled:
  "is_cancelled (jobs s j) \<Longrightarrow>
     is_cancelled (jobs (run_history xs s) j)
   \<and> count_list (pool (run_history xs s)) j = count_list (pool s) j"
proof (induction xs arbitrary: s)
  case Nil
  then show ?case by simp
next
  case (Cons x xs)
  from run_step_cancelled [OF Cons.prems, of x] Cons.IH [of "run_step x s"]
  show ?case by simp
qed

lemma pool_Cancel: "pool (Cancel j s) = pool s"
  by (simp add: Cancel_def SchedulableJob_Cancel_def JobCancelled_def update_job_def)

subsection \<open>Refused admission\<close>











section \<open>Properties of the pending collection's order\<close>
















lemma SlotOK_True: "SlotOK acq now rnd job = (True, job') \<Longrightarrow> job' = job"
  by (auto simp: SlotOK_def split: option.splits if_splits)







section \<open>Properties of running a job\<close>

lemma wake_poll_shutdown:
  "wake_poll (replicate m (True, False) @ (True, True) # later) = ShutdownSeen"
  by (induction m) simp_all

lemma Work_finally_effect:
  "\<not> currently_working (jobs (Work_finally j s) j)"
  "released (Work_finally j s)
     = released s @ (case thread_slot_type (jobs s j) of Some t \<Rightarrow> [t] | None \<Rightarrow> [])"
  "invoked (Work_finally j s) = invoked s"
  "work_complete (jobs (Work_finally j s) i) = work_complete (jobs s i)"
  "job_class (jobs (Work_finally j s) i) = job_class (jobs s i)"
  "stop_repeating (jobs (Work_finally j s) i) = stop_repeating (jobs s i)"
  by (simp_all add: Work_finally_def update_job_def split: option.splits)

lemma SchedulableJob_Work_shutdown:
  assumes "should_delay_on_wakeup (jobs s j)" and "wake_poll (polls ob) = ShutdownSeen"
  shows "SchedulableJob_Work ob j s = (Returns (), Work_finally j s)"
  using assms by (simp add: SchedulableJob_Work_def)














section \<open>Properties of DAEMONWorker\<close>









section \<open>Properties of THREADCallToThread\<close>

lemma dequeue_nonempty: "dequeue (c # rest) = Got c rest"
  by (simp add: dequeue_def Queue_get_def)

lemma dequeue_empty: "dequeue [] = Waits"
  by (simp add: dequeue_def Queue_get_def)

lemma puts_keeps:
  "ctt_executed (puts cs w) = ctt_executed w"
  "ctt_currently_working (puts cs w) = (cs \<noteq> [] \<or> ctt_currently_working w)"
  "ctt_queue (puts cs w) = ctt_queue w @ cs"
  by (induction cs arbitrary: w) (auto simp: put_def)

text \<open>The worker is busy or has made a call.\<close>

lemma busy_or_has_worked_run:
  "ctt_currently_working w \<or> ctt_executed w \<noteq> [] \<Longrightarrow>
     ctt_currently_working (snd (THREADCallToThread_run ps w))
   \<or> ctt_executed (snd (THREADCallToThread_run ps w)) \<noteq> []"
proof (induction ps arbitrary: w)
  case Nil
  then show ?case by simp
next
  case (Cons p ps)
  show ?case
  proof (cases "ctt_queue w")
    case Nil
    show ?thesis
    proof (cases "pass_shutting_down p")
      case True
      with Nil Cons.prems show ?thesis by simp
    next
      case False
      let ?w' = "puts (pass_puts_after p) ((puts (pass_puts_during p) w) \<lparr> ctt_event := False \<rparr>)"
      have "ctt_currently_working ?w' \<or> ctt_executed ?w' \<noteq> []"
        using Cons.prems by (auto simp: puts_keeps)
      from Cons.IH [OF this] Nil False show ?thesis by simp
    qed
  next
    case (Cons c rest)
    note q = Cons
    show ?thesis
    proof (cases "pass_shutting_down p")
      case True
      with q Cons.prems show ?thesis by simp
    next
      case False
      let ?w1 = "w \<lparr> ctt_queue := rest,
                     ctt_log := DoPreCall (pass_report_mode p) (ctt_name w) (ctt_log w),
                     ctt_callable := Some c,
                     ctt_executed := ctt_executed w @ [c] \<rparr>"
      show ?thesis
      proof (cases "pass_outcome p")
        case Hangs
        with q False show ?thesis by (simp add: dequeue_nonempty puts_keeps)
      next
        case (Returns u)
        let ?w' = "puts (pass_puts_after p)
                     ((puts (pass_puts_during p) ?w1)
                        \<lparr> ctt_callable := None, ctt_currently_working := False \<rparr>)"
        have "ctt_currently_working ?w' \<or> ctt_executed ?w' \<noteq> []"
          by (simp add: puts_keeps)
        from Cons.IH [OF this] q False Returns show ?thesis
          by (simp add: dequeue_nonempty)
      next
        case (Raises e)
        show ?thesis
        proof (cases "e = ShutdownException")
          case True
          with q False Raises show ?thesis by (simp add: dequeue_nonempty puts_keeps)
        next
          case ne: False
          let ?w' = "puts (pass_puts_after p)
                       ((puts (pass_puts_during p) ?w1)
                          \<lparr> ctt_log := ctt_log ?w1 @ [PrintTraceback e, ShowException e],
                            ctt_currently_working := False \<rparr>)"
          have "ctt_currently_working ?w' \<or> ctt_executed ?w' \<noteq> []"
            by (simp add: puts_keeps)
          from Cons.IH [OF this] q False Raises ne show ?thesis
            by (cases e) (simp_all add: dequeue_nonempty)
        qed
      qed
    qed
  qed
qed

lemma idle_worker_stays_busy:
  assumes "ctt_queue w = []" and "ctt_currently_working w"
    and "list_all (\<lambda>p. pass_puts_during p = [] \<and> pass_puts_after p = []) ps"
  shows "ctt_currently_working (snd (THREADCallToThread_run ps w))
       \<and> ctt_executed (snd (THREADCallToThread_run ps w)) = ctt_executed w"
  using assms
proof (induction ps arbitrary: w)
  case Nil
  then show ?case by simp
next
  case (Cons p ps)
  show ?case
  proof (cases "pass_shutting_down p")
    case True
    with Cons.prems show ?thesis by simp
  next
    case False
    let ?w' = "w \<lparr> ctt_event := False \<rparr>"
    have "ctt_queue ?w' = []" "ctt_currently_working ?w'"
      "list_all (\<lambda>p. pass_puts_during p = [] \<and> pass_puts_after p = []) ps"
      using Cons.prems by simp_all
    from Cons.IH [OF this] Cons.prems False show ?thesis by simp
  qed
qed

lemma run_never_raises: "fst (THREADCallToThread_run ps w) \<noteq> Raises x"
proof (induction ps arbitrary: w)
  case Nil
  then show ?case by simp
next
  case (Cons p ps)
  show ?case
  proof (cases "ctt_queue w")
    case Nil
    with Cons.IH show ?thesis by simp
  next
    case (Cons c rest)
    with Cons.IH show ?thesis
      by (simp add: dequeue_nonempty Let_def split: result.splits exn.splits)
  qed
qed

section \<open>The dispatch phase returns\<close>

text \<open>
  Under a steady clock every iteration that does not leave the loop removes a due entry
  from the pending collection: the popped job is dropped, started, or put back with a
  due time ten seconds ahead. So the loop leaves through a \<^verbatim>\<open>break\<close> after at most one
  iteration per due entry and one more.
\<close>

lemma SlotOK_False:
  "SlotOK acq now rnd job = (False, job') \<Longrightarrow>
     job' = job \<lparr> next_work_time := now + 10 + rnd \<rparr>"
  by (auto simp: SlotOK_def split: option.splits if_splits)

lemma filter_bisect_insort_absent:
  "\<not> P x \<Longrightarrow> filter P (bisect_insort lt a x) = filter P a"
proof -
  assume "\<not> P x"
  moreover have "filter P (take n a) @ filter P (drop n a) = filter P a" for n
    by (metis append_take_drop_id filter_append)
  ultimately show ?thesis by (simp add: bisect_insort_def Let_def)
qed

lemma length_filter_le_if_implies:
  "(\<And>x. x \<in> set xs \<Longrightarrow> P x \<Longrightarrow> Q x) \<Longrightarrow> length (filter P xs) \<le> length (filter Q xs)"
proof (induction xs)
  case Nil
  then show ?case by simp
next
  case (Cons y ys)
  then have "length (filter P ys) \<le> length (filter Q ys)" by simp
  moreover have "P y \<Longrightarrow> Q y" using Cons.prems by simp
  ultimately show ?case by auto
qed

lemma StartWork_iteration_due_entries:
  assumes "steady_tick now k" and "StartWork_iteration k s n = (Continue, s', n')"
  shows "due_entries now s' < due_entries now s"
proof (cases k s n rule: StartWork_iteration_cases)
  case stop
  with assms show ?thesis by simp
next
  case (dropped j rest)
  with assms show ?thesis by (auto simp: due_entries_def steady_tick_def)
next
  case (started j rest job')
  from SlotOK_True [OF started(5)] have job': "job' = jobs s j" .
  have s': "s' = StartWork j (update_job j (\<lambda>_. job') (s \<lparr> waiting := rest \<rparr>))"
    using started(6) assms(2) by simp
  have w: "waiting s' = rest"
    by (simp add: s' StartWork_def SchedulableJob_StartWork_def update_job_def)
  have t: "next_work_time (jobs s' i) = next_work_time (jobs s i)" for i
    by (simp add: s' job' StartWork_def SchedulableJob_StartWork_def update_job_def)
  have "due_entries now s' = length (filter (\<lambda>job. IsDue now (jobs s job)) rest)"
    by (simp add: due_entries_def w IsDue_def t)
  with started(1,3) assms(1) show ?thesis
    by (simp add: due_entries_def steady_tick_def)
next
  case (refused j rest job')
  from SlotOK_False [OF refused(5)] have
    job': "job' = (jobs s j) \<lparr> next_work_time := tick_now_slot k + 10 + tick_random k \<rparr>" .
  let ?s1 = "update_job j (\<lambda>_. job') (s \<lparr> waiting := rest \<rparr>)"
  have s': "s' = ?s1 \<lparr> waiting := bisect_insort (job_lt (jobs ?s1)) rest j \<rparr>"
    using refused(6) assms(2) by simp
  have late: "\<not> IsDue now (jobs s' j)"
    using assms(1)
    by (simp add: s' job' update_job_def IsDue_def TimeHasPassedFloat_def steady_tick_def)
  have "due_entries now s' = length (filter (\<lambda>job. IsDue now (jobs s' job)) rest)"
    using filter_bisect_insort_absent [of "\<lambda>job. IsDue now (jobs s' job)" j, OF late]
    by (simp add: due_entries_def s')
  also have "\<dots> \<le> length (filter (\<lambda>job. IsDue now (jobs s job)) rest)"
  proof (rule length_filter_le_if_implies)
    fix x assume "IsDue now (jobs s' x)"
    with late have "x \<noteq> j" by auto
    then have "jobs s' x = jobs s x" by (simp add: s' update_job_def)
    with \<open>IsDue now (jobs s' x)\<close> show "IsDue now (jobs s x)" by simp
  qed
  also have "\<dots> < due_entries now s"
    using refused(1,3) assms(1) by (simp add: due_entries_def steady_tick_def)
  finally show ?thesis .
qed

lemma StartWork_loop_returns:
  assumes "list_all (steady_tick now) ks" and "due_entries now s < length ks"
  shows "dispatch_returned (StartWork_loop ks s n)"
  using assms
proof (induction ks arbitrary: s n)
  case Nil
  then show ?case by simp
next
  case (Cons k ks)
  from Cons.prems have st: "steady_tick now k" "list_all (steady_tick now) ks" by simp_all
  obtain c s' n' where it: "StartWork_iteration k s n = (c, s', n')"
    by (cases "StartWork_iteration k s n")
  show ?case
  proof (cases c)
    case Break
    with it show ?thesis by (simp add: dispatch_returned_def)
  next
    case Continue
    with it st(1) have "due_entries now s' < due_entries now s"
      by (simp add: StartWork_iteration_due_entries)
    with Cons.prems(2) have "due_entries now s' < length ks" by simp
    moreover have "tick_meanwhile k = []" using st(1) by (simp add: steady_tick_def)
    ultimately show ?thesis
      using Cons.IH [OF st(2), of s' n'] it Continue by simp
  qed
qed

lemma JobScheduler_StartWork_returns:
  assumes "list_all (steady_tick now) ks" and "length (waiting s) < length ks"
  shows "dispatch_returned (JobScheduler_StartWork ks s)"
proof -
  have "due_entries now s \<le> length (waiting s)" by (simp add: due_entries_def)
  with assms(2) have "due_entries now s < length ks" by simp
  with assms(1) show ?thesis
    unfolding JobScheduler_StartWork_def by (rule StartWork_loop_returns)
qed

section \<open>Cancellation before dispatch\<close>

text \<open>
  Claim C1: a job on which \<^verbatim>\<open>Cancel()\<close> has been called is never dispatched. After
  \<^verbatim>\<open>Cancel\<close>, whatever the scheduler thread and the other threads go on to do, the job's
  \<^verbatim>\<open>Work\<close> is not handed to the pool again: the number of its submissions stays what it
  was. The filter pass that \<^verbatim>\<open>Cancel\<close> requests removes the job from the pending
  collection; \<^verbatim>\<open>StartWork\<close> on it does nothing; and a dispatch iteration that finds it due
  at the head of the collection pops it and drops it, starting nothing.
\<close>

theorem cancelled_job_never_dispatched:
  "count_list (pool (run_history xs (Cancel j s))) j = count_list (pool s) j
   \<and> j \<notin> set (waiting (filter_pass (Cancel j s)))
   \<and> StartWork j (Cancel j s) = Cancel j s
   \<and> (\<forall>rest. waiting (Cancel j s) = j # rest \<and> n < 10
                \<and> IsDue (tick_now_due k) (jobs (Cancel j s) j)
         \<longrightarrow> StartWork_iteration k (Cancel j s) n
               = (Continue, (Cancel j s) \<lparr> waiting := rest \<rparr>, n))"
proof (intro conjI allI impI)
  have c: "is_cancelled (jobs (Cancel j s) j)" by (rule is_cancelled_Cancel)
  from run_history_cancelled [OF c, of xs]
  show "count_list (pool (run_history xs (Cancel j s))) j = count_list (pool s) j"
    by (simp add: pool_Cancel)
  have "cancel_filter_needed (Cancel j s)"
    by (simp add: Cancel_def SchedulableJob_Cancel_def JobCancelled_def update_job_def)
  with c show "j \<notin> set (waiting (filter_pass (Cancel j s)))"
    by (simp add: filter_pass_def FilterCancelled_def IsCancelled_def)
  from c show "StartWork j (Cancel j s) = Cancel j s" by (rule StartWork_cancelled)
  fix rest
  assume a: "waiting (Cancel j s) = j # rest \<and> n < 10
               \<and> IsDue (tick_now_due k) (jobs (Cancel j s) j)"
  with c show "StartWork_iteration k (Cancel j s) n
                 = (Continue, (Cancel j s) \<lparr> waiting := rest \<rparr>, n)"
    by (simp add: StartWork_iteration_def IsCancelled_def)
qed

theorem cancelled_job_never_dispatched_witness:
  "waiting (Cancel 0 (add_jobs 1 (JobScheduler_init plain_jobs))) = [0]
   \<and> (0::nat) < 10
   \<and> IsDue (tick_now_due (quiet_tick 5)) (jobs (Cancel 0 (add_jobs 1 (JobScheduler_init plain_jobs))) 0)
   \<and> StartWork_iteration (quiet_tick 5) (Cancel 0 (add_jobs 1 (JobScheduler_init plain_jobs))) 0
       = (Continue, (Cancel 0 (add_jobs 1 (JobScheduler_init plain_jobs))) \<lparr> waiting := [] \<rparr>, 0)
   \<and> count_list (pool (run_history [Dispatch [quiet_tick 5, quiet_tick 5], FilterPass]
                          (Cancel 0 (add_jobs 1 (JobScheduler_init plain_jobs))))) 0
       = count_list (pool (add_jobs 1 (JobScheduler_init plain_jobs))) 0"
proof -
  let ?s = "add_jobs 1 (JobScheduler_init plain_jobs)"
  have w: "waiting (Cancel 0 ?s) = [0]" by code_simp
  have d: "IsDue (tick_now_due (quiet_tick 5)) (jobs (Cancel 0 ?s) 0)" by code_simp
  show ?thesis
    using w d
      cancelled_job_never_dispatched
        [of "[Dispatch [quiet_tick 5, quiet_tick 5], FilterPass]" 0 ?s 0 "quiet_tick 5"]
    by simp
qed

section \<open>The cap of a dispatch phase\<close>

text \<open>
  Claim C2: one call of \<^verbatim>\<open>_StartWork\<close> starts at most 10 jobs. However many iterations
  the loop makes and whatever other threads do between them, the counter
  \<^verbatim>\<open>jobs_started\<close> never exceeds 10, and the submissions the phase adds to the pool are
  at most as many as the counter says, so at most 10; jobs popped and dropped, and jobs
  put back after a refused admission, add none.
\<close>

theorem StartWork_starts_at_most_ten:
  "dispatch_jobs_started (JobScheduler_StartWork ks s) \<le> 10
   \<and> (\<exists>new. pool (dispatch_state (JobScheduler_StartWork ks s)) = pool s @ new
             \<and> length new \<le> dispatch_jobs_started (JobScheduler_StartWork ks s)
             \<and> length new \<le> 10)"
proof -
  from StartWork_loop_pool [of 0 ks s] obtain new where
    new: "pool (dispatch_state (StartWork_loop ks s 0)) = pool s @ new"
      "length new + 0 \<le> dispatch_jobs_started (StartWork_loop ks s 0)"
      "dispatch_jobs_started (StartWork_loop ks s 0) \<le> 10"
    by auto
  then have "length new \<le> 10" by simp
  with new show ?thesis by (auto simp: JobScheduler_StartWork_def)
qed

text \<open>
  With twelve jobs due at once the phase starts the ten earliest and returns, leaving
  the other two pending.
\<close>

lemma StartWork_backlog_of_twelve:
  "dispatch_returned (JobScheduler_StartWork (replicate 20 (quiet_tick 100))
      (add_jobs 12 (JobScheduler_init plain_jobs)))
   \<and> dispatch_jobs_started (JobScheduler_StartWork (replicate 20 (quiet_tick 100))
      (add_jobs 12 (JobScheduler_init plain_jobs))) = 10
   \<and> pool (dispatch_state (JobScheduler_StartWork (replicate 20 (quiet_tick 100))
      (add_jobs 12 (JobScheduler_init plain_jobs)))) = [0, 1, 2, 3, 4, 5, 6, 7, 8, 9]
   \<and> waiting (dispatch_state (JobScheduler_StartWork (replicate 20 (quiet_tick 100))
      (add_jobs 12 (JobScheduler_init plain_jobs)))) = [10, 11]"
  by code_simp

section \<open>Admission control\<close>



section \<open>The order of the pending collection\<close>




text \<open>
  The same history leaves job 0, whose slot was refused, pending with its new due time
  replaced by the wake-up, and jobs 1 and 2 started.
\<close>

lemma example_history_outcome:
  "waiting (run_history
        [Other (ActAddJob 2), Other (ActAddJob 0), Other (ActSetThreadSlotType 0 ''X''),
         Other (ActAddJob 1), Dispatch (replicate 5 (quiet_tick 5)),
         Other (ActAddJob 3), Other (ActCancel 3), FilterPass,
         Other (ActWake 30 0 None), SortPass]
        (JobScheduler_init plain_jobs)) = [0]
   \<and> pool (run_history
        [Other (ActAddJob 2), Other (ActAddJob 0), Other (ActSetThreadSlotType 0 ''X''),
         Other (ActAddJob 1), Dispatch (replicate 5 (quiet_tick 5)),
         Other (ActAddJob 3), Other (ActCancel 3), FilterPass,
         Other (ActWake 30 0 None), SortPass]
        (JobScheduler_init plain_jobs)) = [1, 2]"
  by code_simp

section \<open>The completion signal of a SingleJob\<close>




section \<open>Shutdown during the wake-from-sleep delay\<close>

text \<open>
  Claim C9: when a job has \<^verbatim>\<open>should_delay_on_wakeup\<close> set and the polling loop of
  \<^verbatim>\<open>Work\<close> finds the thread shutting down (after any number of polls at which the
  controller reported a wake from sleep and the thread was not shutting down),
  \<^verbatim>\<open>Work\<close> returns without calling the work callable; the \<^verbatim>\<open>finally\<close> block still
  releases the thread slot, if the job has a slot type, and clears
  \<^verbatim>\<open>currently_working\<close>; and for a \<^verbatim>\<open>SingleJob\<close> the \<^verbatim>\<open>work_complete\<close> signal is set all
  the same, so \<^verbatim>\<open>IsWorkComplete()\<close> is true although the work never ran.
\<close>

theorem shutdown_during_wake_delay_skips_work:
  assumes "should_delay_on_wakeup (jobs s j)"
    and "polls ob = replicate m (True, False) @ (True, True) # later"
  shows "SchedulableJob_Work ob j s = (Returns (), Work_finally j s)
     \<and> fst (Work ob j s) = Returns ()
     \<and> invoked (snd (Work ob j s)) = invoked s
     \<and> \<not> CurrentlyWorking (jobs (snd (Work ob j s)) j)
     \<and> released (snd (Work ob j s))
         = released s @ (case thread_slot_type (jobs s j) of Some t \<Rightarrow> [t] | None \<Rightarrow> [])
     \<and> (job_class (jobs s j) = SingleJobClass \<longrightarrow>
          IsWorkComplete (jobs (snd (Work ob j s)) j))"
proof -
  have p: "wake_poll (polls ob) = ShutdownSeen"
    by (simp add: assms(2) wake_poll_shutdown)
  have base: "SchedulableJob_Work ob j s = (Returns (), Work_finally j s)"
    using assms(1) p by (rule SchedulableJob_Work_shutdown)
  note fin = Work_finally_effect [of j s]
  show ?thesis
  proof (cases "job_class (jobs s j)")
    case SchedulableJobClass
    with base fin show ?thesis by (simp add: Work_def CurrentlyWorking_def)
  next
    case SingleJobClass
    with base fin show ?thesis
      by (simp add: Work_def SingleJob_Work_def CurrentlyWorking_def IsWorkComplete_def
            update_job_def)
  next
    case RepeatingJobClass
    with base fin show ?thesis
      by (simp add: Work_def RepeatingJob_Work_def CurrentlyWorking_def AddJob_def
            update_job_def)
  qed
qed

theorem shutdown_during_wake_delay_skips_work_witness:
  "should_delay_on_wakeup
     (jobs (ShouldDelayOnWakeup 0 True (SetThreadSlotType 0 ''X'' (JobScheduler_init single_jobs))) 0)
   \<and> polls shutdown_while_asleep = replicate 1 (True, False) @ (True, True) # []
   \<and> job_class
       (jobs (ShouldDelayOnWakeup 0 True (SetThreadSlotType 0 ''X'' (JobScheduler_init single_jobs))) 0)
       = SingleJobClass
   \<and> invoked (snd (Work shutdown_while_asleep 0
        (ShouldDelayOnWakeup 0 True (SetThreadSlotType 0 ''X'' (JobScheduler_init single_jobs))))) = []
   \<and> released (snd (Work shutdown_while_asleep 0
        (ShouldDelayOnWakeup 0 True (SetThreadSlotType 0 ''X'' (JobScheduler_init single_jobs)))))
       = [''X'']
   \<and> IsWorkComplete (jobs (snd (Work shutdown_while_asleep 0
        (ShouldDelayOnWakeup 0 True (SetThreadSlotType 0 ''X'' (JobScheduler_init single_jobs))))) 0)"
proof -
  let ?s = "ShouldDelayOnWakeup 0 True (SetThreadSlotType 0 ''X'' (JobScheduler_init single_jobs))"
  have d: "should_delay_on_wakeup (jobs ?s 0)" by code_simp
  have p: "polls shutdown_while_asleep = replicate 1 (True, False) @ (True, True) # []"
    by (simp add: shutdown_while_asleep_def)
  have c: "job_class (jobs ?s 0) = SingleJobClass" by code_simp
  have i: "invoked ?s = []" by code_simp
  have r: "released ?s = []" by code_simp
  have t: "thread_slot_type (jobs ?s 0) = Some ''X''" by code_simp
  from shutdown_during_wake_delay_skips_work [OF d p] c i r t d p
  show ?thesis by simp
qed

section \<open>Exceptions of a DAEMONWorker's work callable\<close>



text \<open>
  A worker whose callable raises at each of three passes has called it three times and
  is still running; when the callable then raises the shutdown signal, \<^verbatim>\<open>run\<close> returns.
\<close>

lemma DAEMONWorker_survives_three_failures:
  "fst (DAEMONWorker_run default_config
          \<lparr> run_init_wait = elapsed_wait,
            run_cycles = replicate 3 (calm_cycle (Raises (OtherException ''boom''))) \<rparr>
          fresh_worker) = Hangs
   \<and> worker_calls (snd (DAEMONWorker_run default_config
          \<lparr> run_init_wait = elapsed_wait,
            run_cycles = replicate 3 (calm_cycle (Raises (OtherException ''boom''))) \<rparr>
          fresh_worker)) = 3
   \<and> fst (DAEMONWorker_run default_config
          \<lparr> run_init_wait = elapsed_wait,
            run_cycles = replicate 3 (calm_cycle (Raises (OtherException ''boom'')))
                           @ [calm_cycle (Raises ShutdownException)] \<rparr>
          fresh_worker) = Returns ()"
  by code_simp

section \<open>The dequeue of THREADCallToThread\<close>


section \<open>The busy flag of a new THREADCallToThread\<close>

text \<open>
  Claim C10: a freshly constructed \<^verbatim>\<open>THREADCallToThread\<close> reports
  \<^verbatim>\<open>CurrentlyWorking() == True\<close> before any job has been submitted. Whatever is
  submitted to it, before it runs or while it runs, the flag is false only after the
  run loop has taken a call from the queue and made it, the \<^verbatim>\<open>finally\<close> step clearing
  the flag; and a new worker to which nothing is submitted stays busy for as long as
  it runs.
\<close>

theorem new_THREADCallToThread_is_busy:
  "THREADCallToThread_CurrentlyWorking (THREADCallToThread_init name)
   \<and> (\<forall>submitted ps.
         \<not> THREADCallToThread_CurrentlyWorking
             (snd (THREADCallToThread_run ps (puts submitted (THREADCallToThread_init name))))
         \<longrightarrow> ctt_executed
               (snd (THREADCallToThread_run ps (puts submitted (THREADCallToThread_init name))))
             \<noteq> [])
   \<and> (\<forall>ps. list_all (\<lambda>p. pass_puts_during p = [] \<and> pass_puts_after p = []) ps
         \<longrightarrow> THREADCallToThread_CurrentlyWorking
               (snd (THREADCallToThread_run ps (THREADCallToThread_init name))))"
proof (intro conjI allI impI)
  show "THREADCallToThread_CurrentlyWorking (THREADCallToThread_init name)"
    by (simp add: THREADCallToThread_CurrentlyWorking_def THREADCallToThread_init_def)
next
  fix submitted ps
  let ?w = "puts submitted (THREADCallToThread_init name)"
  assume idle: "\<not> THREADCallToThread_CurrentlyWorking (snd (THREADCallToThread_run ps ?w))"
  have "ctt_currently_working ?w \<or> ctt_executed ?w \<noteq> []"
    by (simp add: puts_keeps THREADCallToThread_init_def)
  from busy_or_has_worked_run [OF this, of ps] idle
  show "ctt_executed (snd (THREADCallToThread_run ps ?w)) \<noteq> []"
    by (simp add: THREADCallToThread_CurrentlyWorking_def)
next
  fix ps :: "pass list"
  assume quiet: "list_all (\<lambda>p. pass_puts_during p = [] \<and> pass_puts_after p = []) ps"
  have e: "ctt_queue (THREADCallToThread_init name) = []"
    and b: "ctt_currently_working (THREADCallToThread_init name)"
    by (simp_all add: THREADCallToThread_init_def)
  from idle_worker_stays_busy [OF e b quiet]
  show "THREADCallToThread_CurrentlyWorking
          (snd (THREADCallToThread_run ps (THREADCallToThread_init name)))"
    by (simp add: THREADCallToThread_CurrentlyWorking_def)
qed

theorem new_THREADCallToThread_is_busy_witness:
  "THREADCallToThread_CurrentlyWorking (THREADCallToThread_init ''worker'')
   \<and> \<not> THREADCallToThread_CurrentlyWorking
         (snd (THREADCallToThread_run [calm_pass (Returns ()) [7], calm_pass (Returns ()) []]
                 (puts [] (THREADCallToThread_init ''worker''))))
   \<and> ctt_executed
         (snd (THREADCallToThread_run [calm_pass (Returns ()) [7], calm_pass (Returns ()) []]
                 (puts [] (THREADCallToThread_init ''worker'')))) \<noteq> []
   \<and> list_all (\<lambda>p. pass_puts_during p = [] \<and> pass_puts_after p = [])
        [calm_pass (Returns ()) [], calm_pass (Returns ()) []]
   \<and> THREADCallToThread_CurrentlyWorking
         (snd (THREADCallToThread_run [calm_pass (Returns ()) [], calm_pass (Returns ()) []]
                 (THREADCallToThread_init ''worker'')))"
proof -
  let ?ps = "[calm_pass (Returns ()) [7], calm_pass (Returns ()) []]"
  let ?qs = "[calm_pass (Returns ()) [], calm_pass (Returns ()) []]"
  have idle: "\<not> THREADCallToThread_CurrentlyWorking
         (snd (THREADCallToThread_run ?ps (puts [] (THREADCallToThread_init ''worker''))))"
    by code_simp
  have quiet: "list_all (\<lambda>p. pass_puts_during p = [] \<and> pass_puts_after p = []) ?qs"
    by (simp add: calm_pass_def)
  note T = new_THREADCallToThread_is_busy [of "''worker''"]
  from T have a: "THREADCallToThread_CurrentlyWorking (THREADCallToThread_init ''worker'')"
    by (rule conjunct1)
  from T idle have b: "ctt_executed
         (snd (THREADCallToThread_run ?ps (puts [] (THREADCallToThread_init ''worker'')))) \<noteq> []"
    by blast
  from T quiet have c: "THREADCallToThread_CurrentlyWorking
         (snd (THREADCallToThread_run ?qs (THREADCallToThread_init ''worker'')))"
    by blast
  from a idle b quiet c show ?thesis by (intro conjI)
qed

text \<open>
  A first call: the worker waits on its empty queue, call 7 is submitted, the worker
  makes it and is idle afterwards.
\<close>

lemma THREADCallToThread_first_call:
  "ctt_executed
     (snd (THREADCallToThread_run [calm_pass (Returns ()) [7], calm_pass (Returns ()) []]
             (THREADCallToThread_init ''worker''))) = [7]
   \<and> ctt_queue
     (snd (THREADCallToThread_run [calm_pass (Returns ()) [7], calm_pass (Returns ()) []]
             (THREADCallToThread_init ''worker''))) = []
   \<and> \<not> ctt_currently_working
     (snd (THREADCallToThread_run [calm_pass (Returns ()) [7], calm_pass (Returns ()) []]
             (THREADCallToThread_init ''worker'')))"
  by code_simp

end
